theory Spec2Isabelle
  imports Complex_Main "HOL-Library.Monad_Syntax" "HOL-Library.AList" "HOL-Library.Log_Nat"
begin

section \<open>genblastA to GFF3: the record parser and the feature emitter\<close>

text \<open>
  A shallow embedding of \<^verbatim>\<open>genblastA_to_gff3.py\<close>: the generator
  \<^verbatim>\<open>parse_genblastA\<close>, the function \<^verbatim>\<open>write_gff_line\<close> and the
  module-level loop that feeds the one into the other.

  Modelling decisions.
  \<^item> A line is a \<open>string\<close>; the input file is the list of its lines.
  \<^item> The local variables of the generator are the fields of the record \<open>pstate\<close>; one
    iteration of the \<^verbatim>\<open>for\<close> loop is the function \<open>step\<close>.
  \<^item> A regular-expression match object is the record of its named groups, all text; a
    failed match is \<open>None\<close>. A match object is always truthy in Python, so
    \<^verbatim>\<open>if genomic_match:\<close> is the test \<open>genomic_match \<noteq> None\<close>.
  \<^item> The dictionary \<^verbatim>\<open>hsp_dict\<close> is an association list in insertion order, updated
    with \<open>AList.update\<close> (an existing key keeps its place, a new key goes to the end),
    which is how a Python dictionary iterates.
  \<^item> Exceptions are values of the type \<open>py_error\<close>; a function that can raise
    returns a sum, \<open>Inl\<close> for the exception.
  \<^item> Python's \<^verbatim>\<open>int\<close> is \<open>int\<close>, and \<^verbatim>\<open>int(s)\<close> has no bound on the number
    of digits (Python 3.11 and later refuse more than 4300 digits unless the limit is
    lifted).
  \<^item> Python's \<^verbatim>\<open>float\<close> is the type \<open>double\<close> of IEEE 754 double-precision
    numbers: \<^verbatim>\<open>float(s)\<close>, the sum and the quotient each round their exact result to
    the nearest double, ties to even. \<^verbatim>\<open>sum\<close> adds from left to right, as CPython
    does up to version 3.11 (later versions compensate the rounding errors of the
    partial sums).
  \<^item> Strings are Python 3 strings of code points below 256: whitespace is what
    \<^verbatim>\<open>str.isspace\<close> accepts there and \<^verbatim>\<open>\d\<close> is the ten ASCII digits.
  \<^item> The output file is the list of the strings written to it, in order.
  \<^item> The calls to \<^verbatim>\<open>logging\<close> do not change any variable of the parser and are
    left out; the branch that logs is kept.
\<close>

subsection \<open>Strings as Python sees them\<close>

definition startswith :: "string \<Rightarrow> string \<Rightarrow> bool" where
  "startswith s p = (take (length p) s = p)"

text \<open>\<^verbatim>\<open>sub in s\<close>: \<open>sub\<close> occurs in \<open>s\<close> as a contiguous piece.\<close>

fun contains :: "string \<Rightarrow> string \<Rightarrow> bool" where
  "contains sub [] = (sub = [])"
| "contains sub (c # cs) = (startswith (c # cs) sub \<or> contains sub cs)"

text \<open>
  The characters for which \<^verbatim>\<open>str.isspace\<close> holds, among the code points below 256:
  tab, line feed, vertical tab, form feed, carriage return, the four separators
  0x1C to 0x1F, space, 0x85 and 0xA0.
\<close>

definition isspace :: "char \<Rightarrow> bool" where
  "isspace c = (c \<in> set [CHR 0x09, CHR 0x0A, CHR 0x0B, CHR 0x0C, CHR 0x0D,
                          CHR 0x1C, CHR 0x1D, CHR 0x1E, CHR 0x1F, CHR 0x20,
                          CHR 0x85, CHR 0xA0])"

definition isdigit :: "char \<Rightarrow> bool" where
  "isdigit c = (c \<in> set ''0123456789'')"

text \<open>\<^verbatim>\<open>s.rstrip()\<close>: the trailing whitespace is removed.\<close>

definition rstrip :: "string \<Rightarrow> string" where
  "rstrip s = rev (dropWhile isspace (rev s))"

text \<open>
  \<^verbatim>\<open>s.split()\<close>: the maximal runs of characters that are not whitespace, in order.
  \<open>split_acc w s\<close> carries the word \<open>w\<close> read so far.
\<close>

fun split_acc :: "string \<Rightarrow> string \<Rightarrow> string list" where
  "split_acc w [] = (if w = [] then [] else [w])"
| "split_acc w (c # cs) =
     (if isspace c then (if w = [] then split_acc [] cs else w # split_acc [] cs)
      else split_acc (w @ [c]) cs)"

definition split_ws :: "string \<Rightarrow> string list" where
  "split_ws s = split_acc [] s"

text \<open>\<^verbatim>\<open>sep.join(xs)\<close>.\<close>

fun join :: "string \<Rightarrow> string list \<Rightarrow> string" where
  "join sep [] = []"
| "join sep [x] = x"
| "join sep (x # y # ys) = x @ sep @ join sep (y # ys)"

subsection \<open>Numbers from text\<close>

datatype py_error = ValueError | ZeroDivisionError | OverflowError

definition digit_val :: "char \<Rightarrow> int" where
  "digit_val c = int (length (takeWhile (\<lambda>d. d \<noteq> c) ''0123456789''))"

text \<open>
  \<^verbatim>\<open>int(s)\<close> for a text of decimal digits, which is all the program passes to it
  (every such text comes from a group \<^verbatim>\<open>\d+\<close>).
\<close>

definition py_int :: "string \<Rightarrow> int" where
  "py_int s = foldl (\<lambda>a c. 10 * a + digit_val c) 0 s"

subsection \<open>Double-precision numbers\<close>

text \<open>
  A double is a finite number, which is a rational, one of the two infinities or a NaN.
  The sign of zero is left out: no operation of the program tells the two zeros apart.
\<close>

datatype double = Fin rat | PInf | NInf | NaN

text \<open>\<open>pow2 e\<close> is 2 to the power \<open>e\<close>, for any integer \<open>e\<close>.\<close>

definition pow2 :: "int \<Rightarrow> rat" where
  "pow2 e = (if 0 \<le> e then 2 ^ nat e else 1 / 2 ^ nat (- e))"

text \<open>
  The exponent of a positive rational \<open>x\<close>: the \<open>e\<close> with
  \<open>pow2 e \<le> x < pow2 (e + 1)\<close>. With \<open>x = p / q\<close> it is the difference of the bit
  lengths of \<open>p\<close> and \<open>q\<close>, or one less.
\<close>

definition floor_log2 :: "rat \<Rightarrow> int" where
  "floor_log2 x =
     (case quotient_of x of (p, q) \<Rightarrow>
        let d = bitlen p - bitlen q in if pow2 d \<le> x then d else d - 1)"

text \<open>The nearest integer, a tie going to the even one.\<close>

definition round_half_even :: "rat \<Rightarrow> int" where
  "round_half_even x =
     (let f = \<lfloor>x\<rfloor>; r = x - of_int f
      in if r < 1 / 2 then f else if 1 / 2 < r then f + 1
         else if even f then f else f + 1)"

text \<open>Two to the power 1024: a rounded magnitude that reaches it overflows.\<close>

definition DBL_OVERFLOW :: rat where
  "DBL_OVERFLOW = 179769313486231590772930519078902473361797697894230657273430081157732675805500963132708477322407536021120113879871393357658789768814416622492847430639474124377767893424865485276302219601246094119453082952085005768838150682342462881473913110540827237163350510684586298239947245938479716304835356329624224137216"

text \<open>
  Rounding to the nearest double, ties to even: a significand of 53 bits, the least
  exponent - 1022 (below it the spacing of the subnormal numbers stays
  \<open>pow2 (- 1074)\<close>), and an infinity when the rounded magnitude reaches
  \<open>DBL_OVERFLOW\<close>.
\<close>

definition round_double :: "rat \<Rightarrow> double" where
  "round_double x =
     (if x = 0 then Fin 0
      else
        let a = \<bar>x\<bar>;
            q = max (floor_log2 a) (- 1022) - 52;
            r = of_int (round_half_even (a / pow2 q)) * pow2 q
        in if DBL_OVERFLOW \<le> r then (if 0 < x then PInf else NInf)
           else Fin (if 0 < x then r else - r))"

text \<open>\<^verbatim>\<open>x + y\<close> on doubles.\<close>

fun fl_add :: "double \<Rightarrow> double \<Rightarrow> double" where
  "fl_add (Fin a) (Fin b) = round_double (a + b)"
| "fl_add NaN y = NaN"
| "fl_add x NaN = NaN"
| "fl_add PInf NInf = NaN"
| "fl_add NInf PInf = NaN"
| "fl_add PInf y = PInf"
| "fl_add x PInf = PInf"
| "fl_add NInf y = NInf"
| "fl_add x NInf = NInf"

text \<open>
  \<^verbatim>\<open>x / y\<close> for a double \<open>x\<close> and a finite, positive double of value \<open>b\<close>, which
  is all the program divides by.
\<close>

fun fl_div_pos :: "double \<Rightarrow> rat \<Rightarrow> double" where
  "fl_div_pos (Fin a) b = round_double (a / b)"
| "fl_div_pos PInf b = PInf"
| "fl_div_pos NInf b = NInf"
| "fl_div_pos NaN b = NaN"

text \<open>\<^verbatim>\<open>x >= y\<close> on doubles: false as soon as one side is a NaN.\<close>

fun fl_ge :: "double \<Rightarrow> double \<Rightarrow> bool" where
  "fl_ge NaN y = False"
| "fl_ge x NaN = False"
| "fl_ge PInf y = True"
| "fl_ge x NInf = True"
| "fl_ge (Fin a) (Fin b) = (b \<le> a)"
| "fl_ge x y = False"

text \<open>
  \<^verbatim>\<open>sum(xs)\<close> for a list of doubles: the start value is the integer 0 and the
  elements are added from left to right.
\<close>

definition py_sum :: "double list \<Rightarrow> double" where
  "py_sum xs = foldl fl_add (Fin 0) xs"

text \<open>
  \<^verbatim>\<open>float(s)\<close> for a text of digits and dots (a group \<^verbatim>\<open>[\d.]+\<close>): Python
  accepts it when it has at least one digit and at most one dot, and raises
  \<^verbatim>\<open>ValueError\<close> otherwise (\<^verbatim>\<open>float('.')\<close>, \<^verbatim>\<open>float('1.2.3')\<close>). The value is
  the double nearest to the decimal number the text denotes.
\<close>

definition py_float :: "string \<Rightarrow> double option" where
  "py_float s =
     (let ip = takeWhile isdigit s; r = dropWhile isdigit s
      in if r = [] then (if ip = [] then None else Some (round_double (of_int (py_int ip))))
         else if hd r = CHR ''.'' \<and> list_all isdigit (tl r) \<and> ip @ tl r \<noteq> []
         then Some (round_double (of_int (py_int (ip @ tl r)) / 10 ^ length (tl r)))
         else None)"

subsection \<open>The two regular expressions\<close>

text \<open>
  Both patterns are anchored at the start (\<^verbatim>\<open>match\<close>) and at the end (\<^verbatim>\<open>$\<close>), and
  every repetition in them is a character class followed by a literal character that
  is not in the class. So the greedy repetition takes the longest run of the class and
  no shorter choice can lead to a match: the matcher below reads the text once, left to
  right. \<open>lit\<close> consumes a literal, \<open>star\<close> is \<^verbatim>\<open>[...]*\<close>, \<open>plus\<close> is
  \<^verbatim>\<open>[...]+\<close>, and \<open>at_end\<close> is \<^verbatim>\<open>$\<close>, which also holds just before a final
  line feed.
\<close>

definition lit :: "string \<Rightarrow> string \<Rightarrow> string option" where
  "lit p s = (if startswith s p then Some (drop (length p) s) else None)"

definition star :: "(char \<Rightarrow> bool) \<Rightarrow> string \<Rightarrow> (string \<times> string) option" where
  "star P s = Some (takeWhile P s, dropWhile P s)"

definition plus :: "(char \<Rightarrow> bool) \<Rightarrow> string \<Rightarrow> (string \<times> string) option" where
  "plus P s = (if takeWhile P s = [] then None else Some (takeWhile P s, dropWhile P s))"

definition at_end :: "string \<Rightarrow> unit option" where
  "at_end s = (if s = [] \<or> s = [CHR 0x0A] then Some () else None)"

text \<open>The groups of \<^verbatim>\<open>GENOMIC_MATCH_RE\<close>, as the text they matched.\<close>

record gmatch =
  grp_query_name :: string
  match_name :: string
  match_start :: string
  match_end :: string
  strand :: string
  coverage_num :: string
  coverage_perc :: string
  score :: string
  rank :: string

text \<open>
  \<^verbatim>\<open>^(?P<query_name>[^|]*)\|(?P<match_name>[^:]*):(?P<match_start>\d+)\.\.(?P<match_end>\d+)\|(?P<strand>[+-])\|gene cover:(?P<coverage_num>\d+)\((?P<coverage_perc>[\d.]+)%\)\|score:(?P<score>[-\d.]+)\|rank:(?P<rank>\d+)$\<close>
\<close>

definition GENOMIC_MATCH_RE :: "string \<Rightarrow> gmatch option" where
  "GENOMIC_MATCH_RE s0 = do {
     (qn, s1) \<leftarrow> star (\<lambda>c. c \<noteq> CHR ''|'') s0;
     s2 \<leftarrow> lit ''|'' s1;
     (mn, s3) \<leftarrow> star (\<lambda>c. c \<noteq> CHR '':'') s2;
     s4 \<leftarrow> lit '':'' s3;
     (ms, s5) \<leftarrow> plus isdigit s4;
     s6 \<leftarrow> lit ''..'' s5;
     (me, s7) \<leftarrow> plus isdigit s6;
     s8 \<leftarrow> lit ''|'' s7;
     (sd, s9) \<leftarrow> (case s8 of [] \<Rightarrow> None
                   | c # cs \<Rightarrow> if c = CHR ''+'' \<or> c = CHR ''-'' then Some ([c], cs) else None);
     s10 \<leftarrow> lit ''|gene cover:'' s9;
     (cn, s11) \<leftarrow> plus isdigit s10;
     s12 \<leftarrow> lit ''('' s11;
     (cp, s13) \<leftarrow> plus (\<lambda>c. isdigit c \<or> c = CHR ''.'') s12;
     s14 \<leftarrow> lit ''%)|score:'' s13;
     (sc, s15) \<leftarrow> plus (\<lambda>c. c = CHR ''-'' \<or> isdigit c \<or> c = CHR ''.'') s14;
     s16 \<leftarrow> lit ''|rank:'' s15;
     (rk, s17) \<leftarrow> plus isdigit s16;
     _ \<leftarrow> at_end s17;
     Some \<lparr>grp_query_name = qn, match_name = mn, match_start = ms, match_end = me,
            strand = sd, coverage_num = cn, coverage_perc = cp, score = sc, rank = rk\<rparr>
   }"

text \<open>The groups of \<^verbatim>\<open>HSP_RE\<close>.\<close>

record hsp_groups =
  grp_hsp_id :: string
  grp_match_start :: string
  grp_match_end :: string
  grp_query_start :: string
  grp_query_end :: string
  grp_perc_id :: string

text \<open>
  \<^verbatim>\<open>^HSP_ID\[(?P<hsp_id>\d+)\]:\((?P<match_start>\d+)-(?P<match_end>\d+)\);query:\((?P<query_start>\d+)-(?P<query_end>\d+)\); pid: (?P<perc_id>[\d.]+)$\<close>
\<close>

definition HSP_RE :: "string \<Rightarrow> hsp_groups option" where
  "HSP_RE s0 = do {
     s1 \<leftarrow> lit ''HSP_ID['' s0;
     (hid, s2) \<leftarrow> plus isdigit s1;
     s3 \<leftarrow> lit '']:('' s2;
     (ms, s4) \<leftarrow> plus isdigit s3;
     s5 \<leftarrow> lit ''-'' s4;
     (me, s6) \<leftarrow> plus isdigit s5;
     s7 \<leftarrow> lit '');query:('' s6;
     (qs, s8) \<leftarrow> plus isdigit s7;
     s9 \<leftarrow> lit ''-'' s8;
     (qe, s10) \<leftarrow> plus isdigit s9;
     s11 \<leftarrow> lit ''); pid: '' s10;
     (pid, s12) \<leftarrow> plus (\<lambda>c. isdigit c \<or> c = CHR ''.'') s11;
     _ \<leftarrow> at_end s12;
     Some \<lparr>grp_hsp_id = hid, grp_match_start = ms, grp_match_end = me,
            grp_query_start = qs, grp_query_end = qe, grp_perc_id = pid\<rparr>
   }"

subsection \<open>The record parser\<close>

definition START_STR :: string where
  "START_STR = ''//*****************START''"

definition END_STR :: string where
  "END_STR = ''//******************END''"

definition QUERY_NAME_STR :: string where
  "QUERY_NAME_STR = ''//for query: ''"

definition HSP_STR :: string where
  "HSP_STR = ''HSP_ID''"

text \<open>The dictionary built for one HSP line.\<close>

record hsp =
  hsp_match_start :: int
  hsp_match_end :: int
  query_start :: int
  query_end :: int
  perc_id :: double

type_synonym hsp_map = "(int \<times> hsp) list"

text \<open>What the generator yields: \<^verbatim>\<open>dict(match=genomic_match, hsps=hsp_dict)\<close>.\<close>

type_synonym parsed_record = "gmatch \<times> hsp_map"

text \<open>The local variables of \<^verbatim>\<open>parse_genblastA\<close>.\<close>

record pstate =
  in_record :: bool
  hsp_dict :: hsp_map
  genomic_match :: "gmatch option"
  query_name :: string

definition init_state :: pstate where
  "init_state = \<lparr>in_record = False, hsp_dict = [], genomic_match = None, query_name = []\<rparr>"

text \<open>
  Lines 66 to 69: the five conversions are evaluated in the order written and
  \<^verbatim>\<open>float\<close> is the only one that can raise; the key is \<^verbatim>\<open>int(hsp_id)\<close>.
\<close>

definition hsp_entry :: "hsp_groups \<Rightarrow> py_error + (int \<times> hsp)" where
  "hsp_entry g =
     (case py_float (grp_perc_id g) of
        None \<Rightarrow> Inl ValueError
      | Some p \<Rightarrow>
          Inr (py_int (grp_hsp_id g),
               \<lparr>hsp_match_start = py_int (grp_match_start g),
                hsp_match_end = py_int (grp_match_end g),
                query_start = py_int (grp_query_start g),
                query_end = py_int (grp_query_end g),
                perc_id = p\<rparr>))"

text \<open>
  The records yielded while reading one line at a \<^verbatim>\<open>yield\<close> of an active match
  (lines 32 to 33 and 46 to 48).
\<close>

definition yield_active :: "pstate \<Rightarrow> parsed_record list" where
  "yield_active s = (case genomic_match s of None \<Rightarrow> [] | Some m \<Rightarrow> [(m, hsp_dict s)])"

text \<open>
  One iteration of the loop over the lines (lines 25 to 69): the new values of the
  variables and the records yielded, or the exception raised.
\<close>

definition step :: "pstate \<Rightarrow> string \<Rightarrow> py_error + (pstate \<times> parsed_record list)" where
  "step s line =
     (if \<not> in_record s then
        (if startswith line START_STR then Inr (s\<lparr>in_record := True\<rparr>, [])
         else Inr (s, []))
      else if startswith line END_STR then
        Inr (s\<lparr>hsp_dict := [], genomic_match := None, query_name := [], in_record := False\<rparr>,
             yield_active s)
      else if startswith line QUERY_NAME_STR then
        (let fields = split_ws line
         in if length fields \<noteq> 4 then Inr (s\<lparr>in_record := False\<rparr>, [])
            else Inr (s\<lparr>query_name := fields ! 2\<rparr>, []))
      else if contains ''gene cover'' line then
        (let s1 = (if genomic_match s \<noteq> None then s\<lparr>hsp_dict := []\<rparr> else s);
             s2 = s1\<lparr>genomic_match := GENOMIC_MATCH_RE (rstrip line)\<rparr>
         in if genomic_match s2 = None then Inr (s2\<lparr>in_record := False\<rparr>, yield_active s)
            else Inr (s2, yield_active s))
      else if startswith line HSP_STR then
        (case HSP_RE (rstrip line) of
           None \<Rightarrow> Inr (s\<lparr>in_record := False\<rparr>, [])
         | Some g \<Rightarrow>
             (case hsp_entry g of
                Inl e \<Rightarrow> Inl e
              | Inr (k, h) \<Rightarrow> Inr (s\<lparr>hsp_dict := AList.update k h (hsp_dict s)\<rparr>, [])))
      else Inr (s, []))"

text \<open>
  The loop: the records yielded, in order, and how the generator ends, with its final
  variables when the lines are exhausted or with the exception that left it. The
  records yielded before an exception have been handed to the consumer already.
\<close>

fun run :: "pstate \<Rightarrow> string list \<Rightarrow> parsed_record list \<times> (py_error + pstate)" where
  "run s [] = ([], Inr s)"
| "run s (l # ls) =
     (case step s l of
        Inl e \<Rightarrow> ([], Inl e)
      | Inr (s', out) \<Rightarrow> (case run s' ls of (recs, fin) \<Rightarrow> (out @ recs, fin)))"

definition parse_genblastA :: "string list \<Rightarrow> parsed_record list \<times> (py_error + pstate)" where
  "parse_genblastA input_file = run init_state input_file"

subsection \<open>The feature emitter and the driver\<close>

text \<open>The three thresholds of the command line (\<^verbatim>\<open>args\<close>).\<close>

record args =
  min_perc_coverage :: double
  min_match_length :: int
  min_perc_identity :: double

definition default_args :: args where
  "default_args =
     \<lparr>min_perc_coverage = Fin 80, min_match_length = 100, min_perc_identity = Fin 80\<rparr>"

definition TAB :: string where
  "TAB = [CHR 0x09]"

definition NL :: string where
  "NL = [CHR 0x0A]"

text \<open>Lines 81 to 85: the text of the feature line.\<close>

definition gff_line :: "gmatch \<Rightarrow> string \<Rightarrow> string" where
  "gff_line gm qn =
     (let attributes = ''ID='' @ qn @ ''_'' @ rank gm
      in join TAB [match_name gm, ''BLAST'', ''match'', match_start gm, match_end gm,
                   score gm, strand gm, ''.'', attributes] @ NL)"

text \<open>
  \<^verbatim>\<open>write_gff_line\<close>: the strings written to the output file, or the exception. The
  statements run in the order of the source. On line 76 the quotient of the integer 0
  by the count 0 raises \<^verbatim>\<open>ZeroDivisionError\<close> on an empty dictionary; otherwise the
  sum is a double, the count is converted to a double (\<^verbatim>\<open>OverflowError\<close> if it is
  beyond the doubles) and the quotient is rounded. Line 77 converts the coverage, which
  raises \<^verbatim>\<open>ValueError\<close> on a text that is not a number.
\<close>

definition write_gff_line :: "args \<Rightarrow> gmatch \<Rightarrow> hsp_map \<Rightarrow> string \<Rightarrow> py_error + string list" where
  "write_gff_line a gm hsps qn =
     (let num_hsps = length hsps;
          match_length = \<bar>py_int (match_end gm) - py_int (match_start gm)\<bar>
      in if num_hsps = 0 then Inl ZeroDivisionError
         else
           (case round_double (of_nat num_hsps) of
              Fin n \<Rightarrow>
                (let avg_perc_identity = fl_div_pos (py_sum (map (\<lambda>(i, h). perc_id h) hsps)) n
                 in case py_float (coverage_perc gm) of
                      None \<Rightarrow> Inl ValueError
                    | Some query_coverage_perc \<Rightarrow>
                        if fl_ge avg_perc_identity (min_perc_identity a) \<and>
                           fl_ge query_coverage_perc (min_perc_coverage a) \<and>
                           match_length \<ge> min_match_length a
                        then Inr [gff_line gm qn]
                        else Inr [])
            | _ \<Rightarrow> Inl OverflowError))"

text \<open>
  Lines 111 to 113: the header, then one call of \<^verbatim>\<open>write_gff_line\<close> for each record
  the generator yields, with the group \<^verbatim>\<open>query_name\<close> of the match as the query
  name. The result is everything written and the exception that ended the program, if
  any. \<open>emit_all\<close> is the loop body over the records; an exception of the generator
  comes after the records it had yielded.
\<close>

fun emit_all :: "args \<Rightarrow> parsed_record list \<Rightarrow> string list \<times> py_error option" where
  "emit_all a [] = ([], None)"
| "emit_all a ((gm, hsps) # rs) =
     (case write_gff_line a gm hsps (grp_query_name gm) of
        Inl e \<Rightarrow> ([], Some e)
      | Inr out \<Rightarrow> (case emit_all a rs of (outs, err) \<Rightarrow> (out @ outs, err)))"

definition GFF_HEADER :: string where
  "GFF_HEADER = ''##gff-version 3'' @ NL"

definition main :: "args \<Rightarrow> string list \<Rightarrow> string list \<times> py_error option" where
  "main a input_file =
     (case parse_genblastA input_file of
        (recs, fin) \<Rightarrow>
          (case emit_all a recs of
             (outs, Some e) \<Rightarrow> (GFF_HEADER # outs, Some e)
           | (outs, None) \<Rightarrow>
               (GFF_HEADER # outs, case fin of Inl e \<Rightarrow> Some e | Inr _ \<Rightarrow> None)))"

subsection \<open>The kinds of line inside a block\<close>

text \<open>
  Inside a block the parser tries the tests of its \<^verbatim>\<open>if\<close>/\<^verbatim>\<open>elif\<close> chain in
  order. The predicates below name the lines that reach each branch, so that the
  properties of the parser can speak of end markers, query-name lines, gene-cover lines
  and HSP lines.
\<close>

definition is_end_line :: "string \<Rightarrow> bool" where
  "is_end_line l = startswith l END_STR"

definition is_query_line :: "string \<Rightarrow> bool" where
  "is_query_line l = (\<not> startswith l END_STR \<and> startswith l QUERY_NAME_STR)"

definition is_gene_cover_line :: "string \<Rightarrow> bool" where
  "is_gene_cover_line l =
     (\<not> startswith l END_STR \<and> \<not> startswith l QUERY_NAME_STR \<and> contains ''gene cover'' l)"

definition is_hsp_line :: "string \<Rightarrow> bool" where
  "is_hsp_line l =
     (\<not> startswith l END_STR \<and> \<not> startswith l QUERY_NAME_STR \<and>
      \<not> contains ''gene cover'' l \<and> startswith l HSP_STR)"

text \<open>The entry an HSP line adds to the dictionary, when the line is well formed.\<close>

definition hsp_of_line :: "string \<Rightarrow> (int \<times> hsp) option" where
  "hsp_of_line l =
     (case HSP_RE (rstrip l) of
        None \<Rightarrow> None
      | Some g \<Rightarrow> (case hsp_entry g of Inl e \<Rightarrow> None | Inr kh \<Rightarrow> Some kh))"

definition good_hsp_line :: "string \<Rightarrow> bool" where
  "good_hsp_line l = (is_hsp_line l \<and> hsp_of_line l \<noteq> None)"

definition good_query_line :: "string \<Rightarrow> bool" where
  "good_query_line l = (is_query_line l \<and> length (split_ws l) = 4)"

text \<open>A line of the last branch: none of the four tests holds.\<close>

definition is_other_line :: "string \<Rightarrow> bool" where
  "is_other_line l =
     (\<not> startswith l END_STR \<and> \<not> startswith l QUERY_NAME_STR \<and>
      \<not> contains ''gene cover'' l \<and> \<not> startswith l HSP_STR)"

text \<open>
  A passive line leaves the active match and the dictionary alone and keeps the block
  open: a well-formed query-name line or a line of the last branch. A body line is a
  passive line or a well-formed HSP line.
\<close>

definition passive_line :: "string \<Rightarrow> bool" where
  "passive_line l = (good_query_line l \<or> is_other_line l)"

definition body_line :: "string \<Rightarrow> bool" where
  "body_line l = (passive_line l \<or> good_hsp_line l)"

text \<open>
  The dictionary obtained from \<open>d\<close> by the HSP lines of a run of body lines, in the words of
  the specification: each HSP line inserts or overwrites the entry of its \<^verbatim>\<open>hsp_id\<close>.
\<close>

fun collect :: "hsp_map \<Rightarrow> string list \<Rightarrow> hsp_map" where
  "collect d [] = d"
| "collect d (l # ls) =
     collect (if is_hsp_line l
              then (case hsp_of_line l of None \<Rightarrow> d | Some (k, h) \<Rightarrow> AList.update k h d)
              else d) ls"

text \<open>The tracked query name after a run of body lines.\<close>

fun qname_after :: "string \<Rightarrow> string list \<Rightarrow> string" where
  "qname_after q [] = q"
| "qname_after q (l # ls) =
     qname_after (if good_query_line l then split_ws l ! 2 else q) ls"

text \<open>The lines of a block's matches: each gene-cover line followed by its body lines.\<close>

definition match_lines :: "(string \<times> gmatch \<times> string list) list \<Rightarrow> string list" where
  "match_lines gs = concat (map (\<lambda>(g, m, seg). g # seg) gs)"

text \<open>
  A well-formed match of a block: a gene-cover line \<open>g\<close> that the pattern accepts with
  groups \<open>m\<close>, followed by body lines \<open>seg\<close>. \<open>record_of\<close> is the record the
  specification expects for it; \<open>hsp_entries\<close> lists the entries of the HSP lines of a
  run of lines, in order, and \<open>hsp_ids\<close> their keys.
\<close>

definition good_match :: "string \<times> gmatch \<times> string list \<Rightarrow> bool" where
  "good_match x =
     (case x of (g, m, seg) \<Rightarrow>
        is_gene_cover_line g \<and> GENOMIC_MATCH_RE (rstrip g) = Some m \<and> list_all body_line seg)"

definition record_of :: "string \<times> gmatch \<times> string list \<Rightarrow> parsed_record" where
  "record_of x = (case x of (g, m, seg) \<Rightarrow> (m, collect [] seg))"

definition hsp_entries :: "string list \<Rightarrow> hsp_map" where
  "hsp_entries ls =
     List.map_filter (\<lambda>l. if is_hsp_line l then hsp_of_line l else None) ls"

definition hsp_ids :: "string list \<Rightarrow> int list" where
  "hsp_ids ls = map fst (hsp_entries ls)"

text \<open>
  The mean of the percent identities of a dictionary of HSPs as the program computes it:
  the sum of the doubles, from left to right, divided by the count, each step rounded.
  There is none when the count is beyond the doubles.
\<close>

definition mean_perc_id :: "hsp_map \<Rightarrow> double option" where
  "mean_perc_id hsps =
     (case round_double (of_nat (length hsps)) of
        Fin n \<Rightarrow> Some (fl_div_pos (py_sum (map (\<lambda>kh. perc_id (snd kh)) hsps)) n)
      | _ \<Rightarrow> None)"



text \<open>A threshold \<open>t'\<close> is \<open>t\<close> or above.\<close>

definition raised :: "double \<Rightarrow> double \<Rightarrow> bool" where
  "raised t t' = (t' = t \<or> fl_ge t' t)"

text \<open>The feature lines of an output: what follows the header.\<close>

definition feature_lines :: "string list \<times> py_error option \<Rightarrow> string list" where
  "feature_lines out = tl (fst out)"


text \<open>
  \<open>yield_then out res\<close> is the result of a run that yields \<open>out\<close> and then goes on
  as \<open>res\<close>.
\<close>

definition yield_then ::
  "parsed_record list \<Rightarrow> parsed_record list \<times> (py_error + pstate) \<Rightarrow>
   parsed_record list \<times> (py_error + pstate)" where
  "yield_then out res = (out @ fst res, snd res)"

section \<open>Properties\<close>

subsection \<open>One line at a time\<close>

lemma step_outside:
  "\<not> in_record s \<Longrightarrow>
   step s l = Inr (if startswith l START_STR then s\<lparr>in_record := True\<rparr> else s, [])"
  by (simp add: step_def)

lemma step_end:
  "in_record s \<Longrightarrow> is_end_line l \<Longrightarrow> step s l = Inr (init_state, yield_active s)"
  by (simp add: step_def is_end_line_def init_state_def)

lemma step_passive:
  "in_record s \<Longrightarrow> passive_line l \<Longrightarrow>
   step s l = Inr (s\<lparr>query_name := qname_after (query_name s) [l]\<rparr>, [])"
  by (auto simp: step_def passive_line_def good_query_line_def is_query_line_def
      is_other_line_def)

lemma step_hsp:
  "in_record s \<Longrightarrow> good_hsp_line l \<Longrightarrow>
   step s l = Inr (s\<lparr>hsp_dict := collect (hsp_dict s) [l]\<rparr>, [])"
  by (auto simp: step_def good_hsp_line_def is_hsp_line_def hsp_of_line_def
      split: option.splits sum.splits)

lemma step_gene_cover:
  "in_record s \<Longrightarrow> is_gene_cover_line l \<Longrightarrow>
   step s l =
     Inr (s\<lparr>hsp_dict := (if genomic_match s = None then hsp_dict s else []),
            genomic_match := GENOMIC_MATCH_RE (rstrip l),
            in_record := (GENOMIC_MATCH_RE (rstrip l) \<noteq> None)\<rparr>, yield_active s)"
  by (auto simp: step_def is_gene_cover_line_def Let_def)

lemma hsp_not_query: "good_hsp_line l \<Longrightarrow> \<not> good_query_line l"
  by (auto simp: good_hsp_line_def is_hsp_line_def good_query_line_def is_query_line_def)

lemma passive_not_hsp: "passive_line l \<Longrightarrow> \<not> is_hsp_line l"
  by (auto simp: passive_line_def is_hsp_line_def good_query_line_def is_query_line_def
      is_other_line_def)

lemma step_body:
  "in_record s \<Longrightarrow> body_line l \<Longrightarrow>
   step s l = Inr (s\<lparr>hsp_dict := collect (hsp_dict s) [l],
                      query_name := qname_after (query_name s) [l]\<rparr>, [])"
  unfolding body_line_def
  by (auto simp: step_passive step_hsp passive_not_hsp hsp_not_query)

subsection \<open>Runs of lines\<close>

lemma run_append:
  "run s (xs @ ys) =
     (case run s xs of
        (r, Inl e) \<Rightarrow> (r, Inl e)
      | (r, Inr s') \<Rightarrow> (case run s' ys of (r', fin) \<Rightarrow> (r @ r', fin)))"
  by (induction xs arbitrary: s) (auto split: sum.splits prod.splits)

lemma run_body:
  "in_record s \<Longrightarrow> \<forall>l\<in>set ls. body_line l \<Longrightarrow>
   run s ls = ([], Inr (s\<lparr>hsp_dict := collect (hsp_dict s) ls,
                          query_name := qname_after (query_name s) ls\<rparr>))"
proof (induction ls arbitrary: s)
  case Nil
  then show ?case by simp
next
  case (Cons l ls)
  let ?s' = "s\<lparr>hsp_dict := collect (hsp_dict s) [l],
                 query_name := qname_after (query_name s) [l]\<rparr>"
  have st: "step s l = Inr (?s', [])"
    using Cons.prems by (simp add: step_body)
  have "run ?s' ls = ([], Inr (?s'\<lparr>hsp_dict := collect (hsp_dict ?s') ls,
                          query_name := qname_after (query_name ?s') ls\<rparr>))"
    using Cons.prems by (intro Cons.IH) simp_all
  then show ?case using st by simp
qed

lemma run_skip:
  "\<not> in_record s \<Longrightarrow> \<forall>l\<in>set ls. \<not> startswith l START_STR \<Longrightarrow> run s ls = ([], Inr s)"
  by (induction ls arbitrary: s) (simp_all add: step_outside)

lemma collect_append: "collect d (xs @ ys) = collect (collect d xs) ys"
  by (induction xs arbitrary: d) simp_all

lemma collect_passive: "\<forall>l\<in>set ls. passive_line l \<Longrightarrow> collect d ls = d"
  by (induction ls arbitrary: d) (simp_all add: passive_not_hsp)

lemma yield_then_Nil: "yield_then [] res = res"
  by (simp add: yield_then_def)

lemma yield_then_assoc: "yield_then a (yield_then b res) = yield_then (a @ b) res"
  by (simp add: yield_then_def)

lemma run_Cons_ok: "step s l = Inr (s', out) \<Longrightarrow> run s (l # ls) = yield_then out (run s' ls)"
  by (simp add: yield_then_def split: prod.splits)

lemma run_append_ok:
  "run s xs = (r, Inr s') \<Longrightarrow> run s (xs @ ys) = yield_then r (run s' ys)"
  by (simp add: run_append yield_then_def split: prod.splits)

lemma match_lines_Cons: "match_lines ((g, m, seg) # gs) = g # seg @ match_lines gs"
  by (simp add: match_lines_def)

lemma match_lines_Nil: "match_lines [] = []"
  by (simp add: match_lines_def)

lemma record_of_tuple: "record_of (g, m, seg) = (m, collect [] seg)"
  by (simp add: record_of_def)

text \<open>
  Inside a block with an active match, a sequence of well-formed matches closed by an
  end marker yields the active match first and then one record for each match.
\<close>

lemma run_matches:
  assumes "in_record s" and "genomic_match s = Some m0"
    and "\<forall>x\<in>set gs. good_match x" and "is_end_line e"
  shows "run s (match_lines gs @ e # rest) =
           yield_then ((m0, hsp_dict s) # map record_of gs) (run init_state rest)"
  using assms(1,2,3)
proof (induction gs arbitrary: s m0)
  case Nil
  have "step s e = Inr (init_state, [(m0, hsp_dict s)])"
    using Nil.prems(1,2) assms(4) by (simp add: step_end yield_active_def)
  then show ?case
    by (simp only: match_lines_Nil append_Nil run_Cons_ok list.map)
next
  case (Cons x gs)
  obtain g m seg where x: "x = (g, m, seg)" by (cases x)
  have g: "is_gene_cover_line g" "GENOMIC_MATCH_RE (rstrip g) = Some m"
    and seg: "\<forall>l\<in>set seg. body_line l"
    using Cons.prems(3) by (simp_all add: x good_match_def list_all_iff)
  let ?s1 = "s\<lparr>hsp_dict := [], genomic_match := Some m\<rparr>"
  let ?s2 = "?s1\<lparr>hsp_dict := collect [] seg, query_name := qname_after (query_name s) seg\<rparr>"
  let ?X = "match_lines gs @ e # rest"
  have st: "step s g = Inr (?s1, [(m0, hsp_dict s)])"
    using Cons.prems(1,2) g by (simp add: step_gene_cover yield_active_def)
  have body: "run ?s1 seg = ([], Inr ?s2)"
    using run_body [of ?s1 seg] Cons.prems(1) seg by simp
  have rest: "run ?s2 ?X = yield_then ((m, hsp_dict ?s2) # map record_of gs) (run init_state rest)"
    using Cons.prems(1,3) by (intro Cons.IH) simp_all
  have "run s (g # seg @ ?X) =
          yield_then [(m0, hsp_dict s)] (yield_then []
            (yield_then ((m, hsp_dict ?s2) # map record_of gs) (run init_state rest)))"
    by (simp only: run_Cons_ok [OF st] run_append_ok [OF body] rest)
  then show ?case
    by (simp add: x match_lines_Cons yield_then_assoc yield_then_Nil record_of_tuple
        del: run.simps)
qed

text \<open>
  A block entered with no active match: the body lines before the first gene-cover line
  add their HSPs to the dictionary the first match then owns.
\<close>

lemma run_block:
  assumes "\<not> in_record s" and "genomic_match s = None"
    and "startswith start START_STR"
    and "\<forall>l\<in>set pre. body_line l"
    and "good_match (g, m, seg)" and "\<forall>x\<in>set gs. good_match x"
    and "is_end_line e"
  shows "run s (start # pre @ match_lines ((g, m, seg) # gs) @ e # rest) =
           yield_then ((m, collect (hsp_dict s) (pre @ seg)) # map record_of gs)
             (run init_state rest)"
proof -
  have g: "is_gene_cover_line g" "GENOMIC_MATCH_RE (rstrip g) = Some m"
    and seg: "\<forall>l\<in>set seg. body_line l"
    using assms(5) by (simp_all add: good_match_def list_all_iff)
  let ?s0 = "s\<lparr>in_record := True\<rparr>"
  let ?s1 = "?s0\<lparr>hsp_dict := collect (hsp_dict ?s0) pre,
                  query_name := qname_after (query_name ?s0) pre\<rparr>"
  let ?s2 = "?s1\<lparr>genomic_match := Some m\<rparr>"
  let ?s3 = "?s2\<lparr>hsp_dict := collect (hsp_dict ?s2) seg,
                  query_name := qname_after (query_name ?s2) seg\<rparr>"
  let ?X = "match_lines gs @ e # rest"
  have a: "step s start = Inr (?s0, [])"
    using assms(1,3) by (simp add: step_outside)
  have b: "run ?s0 pre = ([], Inr ?s1)"
    using assms(4) by (intro run_body) simp_all
  have c: "step ?s1 g = Inr (?s2, [])"
    using g assms(2) by (simp add: step_gene_cover yield_active_def)
  have d: "run ?s2 seg = ([], Inr ?s3)"
    using seg by (intro run_body) simp_all
  have e: "run ?s3 ?X = yield_then ((m, hsp_dict ?s3) # map record_of gs) (run init_state rest)"
    using assms(6,7) by (intro run_matches) simp_all
  have "run s (start # pre @ g # seg @ ?X) =
          yield_then [] (yield_then [] (yield_then [] (yield_then []
            (yield_then ((m, hsp_dict ?s3) # map record_of gs) (run init_state rest)))))"
    by (simp only: run_Cons_ok [OF a] run_append_ok [OF b] run_Cons_ok [OF c]
        run_append_ok [OF d] e)
  then show ?thesis
    by (simp add: match_lines_Cons yield_then_Nil collect_append del: run.simps)
qed

lemma hsp_entries_append: "hsp_entries (xs @ ys) = hsp_entries xs @ hsp_entries ys"
  by (simp add: hsp_entries_def map_filter_def)

lemma step_boundary:
  "in_record s \<Longrightarrow> is_end_line b \<or> is_gene_cover_line b \<Longrightarrow>
   \<exists>s'. step s b = Inr (s', yield_active s)"
  by (auto simp: step_end step_gene_cover)

lemma run_empty_block:
  assumes "\<not> in_record s" and "genomic_match s = None"
    and "startswith start START_STR" and "\<forall>l\<in>set pre. body_line l" and "is_end_line e"
  shows "run s (start # pre @ e # rest) = run init_state rest"
proof -
  let ?s0 = "s\<lparr>in_record := True\<rparr>"
  let ?s1 = "?s0\<lparr>hsp_dict := collect (hsp_dict ?s0) pre,
                  query_name := qname_after (query_name ?s0) pre\<rparr>"
  have a: "step s start = Inr (?s0, [])"
    using assms(1,3) by (simp add: step_outside)
  have b: "run ?s0 pre = ([], Inr ?s1)"
    using assms(4) by (intro run_body) simp_all
  have c: "step ?s1 e = Inr (init_state, [])"
    using assms(2,5) by (simp add: step_end yield_active_def)
  have "run s (start # pre @ e # rest) =
          yield_then [] (yield_then [] (yield_then [] (run init_state rest)))"
    by (simp only: run_Cons_ok [OF a] run_append_ok [OF b] run_Cons_ok [OF c])
  then show ?thesis
    by (simp add: yield_then_Nil del: run.simps)
qed

subsection \<open>Dictionaries of HSPs\<close>

lemma update_fresh: "k \<notin> fst ` set d \<Longrightarrow> AList.update k v d = d @ [(k, v)]"
  by (induction d) auto

lemma hsp_entries_Cons:
  "hsp_entries (l # ls) =
     (if is_hsp_line l then (case hsp_of_line l of None \<Rightarrow> hsp_entries ls
                             | Some kh \<Rightarrow> kh # hsp_entries ls)
      else hsp_entries ls)"
  by (simp add: hsp_entries_def map_filter_simps split: option.splits)

lemma hsp_entries_Nil: "hsp_entries [] = []"
  by (simp add: hsp_entries_def map_filter_simps)

lemma collect_distinct:
  "distinct (map fst d @ hsp_ids ls) \<Longrightarrow> collect d ls = d @ hsp_entries ls"
proof (induction ls arbitrary: d)
  case Nil
  then show ?case by (simp add: hsp_entries_Nil)
next
  case (Cons l ls)
  show ?case
  proof (cases "is_hsp_line l \<and> hsp_of_line l \<noteq> None")
    case False
    then have "hsp_entries (l # ls) = hsp_entries ls"
      by (auto simp: hsp_entries_Cons split: option.splits)
    moreover have "collect d (l # ls) = collect d ls"
      using False by (auto split: option.splits)
    ultimately show ?thesis
      using Cons by (simp add: hsp_ids_def)
  next
    case True
    then obtain k h where kh: "hsp_of_line l = Some (k, h)" by auto
    have ent: "hsp_entries (l # ls) = (k, h) # hsp_entries ls"
      using True kh by (simp add: hsp_entries_Cons)
    have fresh: "k \<notin> fst ` set d"
      using Cons.prems by (auto simp: hsp_ids_def ent)
    have "distinct (map fst (d @ [(k, h)]) @ hsp_ids ls)"
      using Cons.prems by (auto simp: hsp_ids_def ent)
    then have "collect (d @ [(k, h)]) ls = (d @ [(k, h)]) @ hsp_entries ls"
      by (rule Cons.IH)
    then show ?thesis
      using True kh fresh by (simp add: ent update_fresh)
  qed
qed


subsection \<open>Lines that yield nothing\<close>

lemma step_silent:
  "\<not> is_end_line l \<Longrightarrow> \<not> is_gene_cover_line l \<Longrightarrow>
   step s l = Inr (s', out) \<Longrightarrow> out = []"
  by (auto simp: step_def Let_def is_end_line_def is_gene_cover_line_def
      split: if_splits option.splits sum.splits)

lemma run_silent:
  "\<forall>l\<in>set ls. \<not> is_end_line l \<and> \<not> is_gene_cover_line l \<Longrightarrow> fst (run s ls) = []"
proof (induction ls arbitrary: s)
  case Nil
  then show ?case by simp
next
  case (Cons l ls)
  show ?case
  proof (cases "step s l")
    case (Inl e)
    then show ?thesis by simp
  next
    case (Inr p)
    obtain s' out where p: "p = (s', out)" by (cases p)
    have "out = []"
      using Cons.prems Inr p step_silent [of l s s' out] by simp
    moreover have "fst (run s' ls) = []"
      using Cons.prems by (intro Cons.IH) simp
    ultimately show ?thesis
      using Inr p by (simp add: case_prod_beta)
  qed
qed

text \<open>
  Two runs from states that differ only in the tracked query name yield the same
  records.
\<close>

lemma step_query_name:
  assumes "in_record s1 = in_record s2" and "hsp_dict s1 = hsp_dict s2"
    and "genomic_match s1 = genomic_match s2"
  shows "(\<exists>e. step s1 l = Inl e \<and> step s2 l = Inl e) \<or>
         (\<exists>s1' s2' out. step s1 l = Inr (s1', out) \<and> step s2 l = Inr (s2', out) \<and>
            in_record s1' = in_record s2' \<and> hsp_dict s1' = hsp_dict s2' \<and>
            genomic_match s1' = genomic_match s2')"
proof (cases "in_record s1")
  case False
  then show ?thesis using assms by (simp add: step_def)
next
  case True
  note inr = True
  show ?thesis
  proof (cases "startswith l END_STR")
    case True
    then show ?thesis
      using assms inr by (simp add: step_def yield_active_def split: option.splits)
  next
    case False
    note ne = False
    show ?thesis
    proof (cases "startswith l QUERY_NAME_STR")
      case True
      then show ?thesis using assms inr ne by (simp add: step_def Let_def)
    next
      case False
      note nq = False
      show ?thesis
      proof (cases "contains ''gene cover'' l")
        case True
        then show ?thesis
          using assms inr ne nq
          by (simp add: step_def Let_def yield_active_def split: option.splits)
      next
        case False
        then show ?thesis
          using assms inr ne nq
          by (simp add: step_def split: option.splits sum.splits prod.splits)
      qed
    qed
  qed
qed

lemma run_query_name:
  assumes "in_record s1 = in_record s2" and "hsp_dict s1 = hsp_dict s2"
    and "genomic_match s1 = genomic_match s2"
  shows "fst (run s1 ls) = fst (run s2 ls)"
  using assms
proof (induction ls arbitrary: s1 s2)
  case Nil
  then show ?case by simp
next
  case (Cons l ls)
  from step_query_name [OF Cons.prems, of l] show ?case
  proof (elim disjE exE conjE)
    fix e assume "step s1 l = Inl e" "step s2 l = Inl e"
    then show ?thesis by simp
  next
    fix s1' s2' out
    assume st: "step s1 l = Inr (s1', out)" "step s2 l = Inr (s2', out)"
      and rel: "in_record s1' = in_record s2'" "hsp_dict s1' = hsp_dict s2'"
        "genomic_match s1' = genomic_match s2'"
    have "fst (run s1' ls) = fst (run s2' ls)"
      using rel by (rule Cons.IH)
    then show ?thesis
      using st by (simp add: case_prod_beta)
  qed
qed

subsection \<open>Aborted blocks\<close>

text \<open>
  C1. The claim: when a block is aborted by a query-name line that does not have four
  fields or by an HSP line that fails its pattern, the active match and its HSPs are
  discarded and never yielded, then or later. The code only leaves the block
  (\<^verbatim>\<open>in_record = False\<close>) and keeps \<^verbatim>\<open>genomic_match\<close> and \<^verbatim>\<open>hsp_dict\<close>, while the
  branch of the end marker resets them. So the match of the aborted block is yielded in
  the next block, at its end marker or at its first gene-cover line. Below, the second
  block is empty and the parser still yields the match of the first, for an abort by an
  HSP line and for an abort by a query-name line.
\<close>

theorem aborted_match_yielded_later:
  "fst (parse_genblastA
     [''//*****************START'',
      ''QGENE|CHR1:100..200|+|gene cover:100(95.0%)|score:50.5|rank:1'',
      ''HSP_ID[0]:(100-150);query:(1-50); pid: 98.0'',
      ''HSP_ID junk'',
      ''//*****************START'',
      ''//******************END'']) =
     [(\<lparr>grp_query_name = ''QGENE'', match_name = ''CHR1'', match_start = ''100'',
        match_end = ''200'', strand = ''+'', coverage_num = ''100'',
        coverage_perc = ''95.0'', score = ''50.5'', rank = ''1''\<rparr>,
       [(0, \<lparr>hsp_match_start = 100, hsp_match_end = 150, query_start = 1,
             query_end = 50, perc_id = Fin 98\<rparr>)])]
   \<and>
   fst (parse_genblastA
     [''//*****************START'',
      ''QGENE|CHR1:100..200|+|gene cover:100(95.0%)|score:50.5|rank:1'',
      ''//for query: QGENE'',
      ''//*****************START'',
      ''//******************END'']) =
     [(\<lparr>grp_query_name = ''QGENE'', match_name = ''CHR1'', match_start = ''100'',
        match_end = ''200'', strand = ''+'', coverage_num = ''100'',
        coverage_perc = ''95.0'', score = ''50.5'', rank = ''1''\<rparr>, [])]"
  by code_simp

subsection \<open>Exceptions of the parser\<close>

text \<open>
  C9. The claim: for every sequence of lines the parser yields its records without
  raising. The pattern of an HSP line accepts any run of digits and dots as the percent
  identity, and \<^verbatim>\<open>float\<close> rejects a run with no digit or with two dots: on such a line
  the pattern matches, no error is logged, and \<^verbatim>\<open>ValueError\<close> leaves the generator.
\<close>

theorem parser_raises_on_bad_pid:
  "parse_genblastA
     [''//*****************START'',
      ''HSP_ID[0]:(100-150);query:(1-50); pid: 9.8.0''] = ([], Inl ValueError)"
  by code_simp

subsection \<open>A malformed gene-cover line\<close>

text \<open>
  C2, as amended. The claim says that a block with a malformed gene-cover line yields no
  record at all, not even for a valid gene-cover line seen earlier in the block. The
  parser yields the active match before it tries the pattern on the new line (lines 46
  to 51), so the earlier match is yielded when the malformed line is read. What holds:
  the malformed line yields nothing of its own; the match active at that moment, if
  any, is yielded once with its HSPs; every line up to the next start marker is
  skipped, and scanning resumes there inside a block with no active match. A block
  entered with no active match whose first gene-cover line is malformed yields no
  record.
\<close>

theorem malformed_gene_cover_line:
  assumes "in_record s" and "is_gene_cover_line b"
    and "GENOMIC_MATCH_RE (rstrip b) = None"
    and "\<forall>l\<in>set skipped. \<not> startswith l START_STR"
  shows "run s (b # skipped @ rest) =
           yield_then (yield_active s)
             (run (s\<lparr>hsp_dict := (if genomic_match s = None then hsp_dict s else []),
                     genomic_match := None, in_record := False\<rparr>) rest) \<and>
         (startswith start START_STR \<longrightarrow>
            run s (b # skipped @ start # rest) =
              yield_then (yield_active s)
                (run (s\<lparr>hsp_dict := (if genomic_match s = None then hsp_dict s else []),
                        genomic_match := None\<rparr>) rest)) \<and>
         (\<not> in_record s0 \<and> genomic_match s0 = None \<and> startswith start START_STR \<and>
          (\<forall>l\<in>set pre. body_line l) \<longrightarrow>
            fst (run s0 (start # pre @ b # skipped)) = [])"
proof -
  let ?s1 = "s\<lparr>hsp_dict := (if genomic_match s = None then hsp_dict s else []),
               genomic_match := None, in_record := False\<rparr>"
  have st: "step s' b =
      Inr (s'\<lparr>hsp_dict := (if genomic_match s' = None then hsp_dict s' else []),
              genomic_match := None, in_record := False\<rparr>, yield_active s')"
    if "in_record s'" for s'
    using step_gene_cover [OF that assms(2)] assms(3) by simp
  have sk: "run s' skipped = ([], Inr s')" if "\<not> in_record s'" for s'
    using that assms(4) by (rule run_skip)
  have a: "step s b = Inr (?s1, yield_active s)"
    using assms(1) by (rule st)
  have b: "run ?s1 skipped = ([], Inr ?s1)"
    by (rule sk) simp
  have one: "run s (b # skipped @ xs) = yield_then (yield_active s) (run ?s1 xs)" for xs
    by (simp only: run_Cons_ok [OF a] run_append_ok [OF b] yield_then_Nil)
  have two: "run s (b # skipped @ start # rest) =
              yield_then (yield_active s)
                (run (s\<lparr>hsp_dict := (if genomic_match s = None then hsp_dict s else []),
                        genomic_match := None\<rparr>) rest)"
    if "startswith start START_STR"
  proof -
    have "step ?s1 start = Inr (?s1\<lparr>in_record := True\<rparr>, [])"
      using that by (simp add: step_outside)
    then have "run ?s1 (start # rest) = yield_then [] (run (?s1\<lparr>in_record := True\<rparr>) rest)"
      by (rule run_Cons_ok)
    moreover have "?s1\<lparr>in_record := True\<rparr> =
        s\<lparr>hsp_dict := (if genomic_match s = None then hsp_dict s else []),
          genomic_match := None\<rparr>"
      using assms(1) by simp
    ultimately show ?thesis
      by (simp only: one yield_then_Nil)
  qed
  have three: "fst (run s0 (start # pre @ b # skipped)) = []"
    if h: "\<not> in_record s0" "genomic_match s0 = None" "startswith start START_STR"
      "\<forall>l\<in>set pre. body_line l"
  proof -
    let ?t0 = "s0\<lparr>in_record := True\<rparr>"
    let ?t1 = "?t0\<lparr>hsp_dict := collect (hsp_dict ?t0) pre,
                  query_name := qname_after (query_name ?t0) pre\<rparr>"
    let ?t2 = "?t1\<lparr>hsp_dict := (if genomic_match ?t1 = None then hsp_dict ?t1 else []),
              genomic_match := None, in_record := False\<rparr>"
    have a: "step s0 start = Inr (?t0, [])"
      using h(1,3) by (simp add: step_outside)
    have b: "run ?t0 pre = ([], Inr ?t1)"
      using h(4) by (intro run_body) simp_all
    have c: "step ?t1 b = Inr (?t2, yield_active ?t1)"
      by (rule st) simp
    have d: "run ?t2 skipped = ([], Inr ?t2)"
      by (rule sk) simp
    have "run s0 (start # pre @ b # skipped) =
        yield_then [] (yield_then [] (yield_then (yield_active ?t1) ([], Inr ?t2)))"
      by (simp only: run_Cons_ok [OF a] run_append_ok [OF b] run_Cons_ok [OF c] d)
    then show ?thesis
      using h(2) by (simp add: yield_then_def yield_active_def del: run.simps)
  qed
  show ?thesis
    using one [of rest] two three by blast
qed

text \<open>
  An instance of C2 as amended: the first match is yielded at the malformed line, the
  HSP line and the end marker after it are skipped, and the next block is read.
\<close>

theorem malformed_gene_cover_line_witness:
  "parse_genblastA
     [''//*****************START'',
      ''QGENE|CHR1:100..200|+|gene cover:100(95.0%)|score:50.5|rank:1'',
      ''HSP_ID[0]:(100-150);query:(1-50); pid: 98.0'',
      ''QGENE|CHR2:x..y|+|gene cover:1(1.0%)|score:1|rank:2'',
      ''HSP_ID[0]:(1-2);query:(1-2); pid: 50.0'',
      ''//******************END'',
      ''//*****************START'',
      ''//******************END''] =
   ([(\<lparr>grp_query_name = ''QGENE'', match_name = ''CHR1'', match_start = ''100'',
       match_end = ''200'', strand = ''+'', coverage_num = ''100'',
       coverage_perc = ''95.0'', score = ''50.5'', rank = ''1''\<rparr>,
      [(0, \<lparr>hsp_match_start = 100, hsp_match_end = 150, query_start = 1,
            query_end = 50, perc_id = Fin 98\<rparr>)])],
    Inr init_state)"
proof -
  let ?m = "\<lparr>grp_query_name = ''QGENE'', match_name = ''CHR1'', match_start = ''100'',
       match_end = ''200'', strand = ''+'', coverage_num = ''100'',
       coverage_perc = ''95.0'', score = ''50.5'', rank = ''1''\<rparr>"
  let ?d = "[(0, \<lparr>hsp_match_start = 100, hsp_match_end = 150, query_start = 1,
            query_end = 50, perc_id = Fin 98\<rparr>)]"
  let ?s = "\<lparr>in_record = True, hsp_dict = ?d, genomic_match = Some ?m, query_name = []\<rparr>"
  let ?b = "''QGENE|CHR2:x..y|+|gene cover:1(1.0%)|score:1|rank:2''"
  let ?skipped = "[''HSP_ID[0]:(1-2);query:(1-2); pid: 50.0'', ''//******************END'']"
  have pre: "run init_state
     [''//*****************START'',
      ''QGENE|CHR1:100..200|+|gene cover:100(95.0%)|score:50.5|rank:1'',
      ''HSP_ID[0]:(100-150);query:(1-50); pid: 98.0''] = ([], Inr ?s)"
    by code_simp
  have h1: "in_record ?s" by simp
  have h2: "is_gene_cover_line ?b" by code_simp
  have h3: "GENOMIC_MATCH_RE (rstrip ?b) = None" by code_simp
  have h4: "\<forall>l\<in>set ?skipped. \<not> startswith l START_STR" by code_simp
  have h5: "startswith ''//*****************START'' START_STR" by code_simp
  have fin: "run (?s\<lparr>hsp_dict := (if genomic_match ?s = None then hsp_dict ?s else []),
                        genomic_match := None\<rparr>) [''//******************END''] =
             ([], Inr init_state)"
    by code_simp
  from malformed_gene_cover_line [OF h1 h2 h3 h4,
      of "[''//******************END'']" "''//*****************START''"] h5
  have "run ?s (?b # ?skipped @ ''//*****************START'' # [''//******************END'']) =
          yield_then (yield_active ?s) ([], Inr init_state)"
    unfolding fin by blast
  then have "run ?s (?b # ?skipped @ ''//*****************START'' # [''//******************END'']) =
          ([(?m, ?d)], Inr init_state)"
    by (simp add: yield_then_def yield_active_def del: run.simps)
  with run_append_ok [OF pre] show ?thesis
    unfolding parse_genblastA_def
    by (simp add: yield_then_Nil del: run.simps)
qed

text \<open>
  The counterexample to C2 as stated: the block has a malformed gene-cover line and
  yields the record of the valid gene-cover line before it.
\<close>

theorem record_before_malformed_gene_cover:
  "fst (parse_genblastA
     [''//*****************START'',
      ''QGENE|CHR1:100..200|+|gene cover:100(95.0%)|score:50.5|rank:1'',
      ''HSP_ID[0]:(100-150);query:(1-50); pid: 98.0'',
      ''QGENE|CHR2:x..y|+|gene cover:1(1.0%)|score:1|rank:2'',
      ''//******************END'']) =
   [(\<lparr>grp_query_name = ''QGENE'', match_name = ''CHR1'', match_start = ''100'',
       match_end = ''200'', strand = ''+'', coverage_num = ''100'',
       coverage_perc = ''95.0'', score = ''50.5'', rank = ''1''\<rparr>,
      [(0, \<lparr>hsp_match_start = 100, hsp_match_end = 150, query_start = 1,
            query_end = 50, perc_id = Fin 98\<rparr>)])] \<and>
   GENOMIC_MATCH_RE (rstrip ''QGENE|CHR2:x..y|+|gene cover:1(1.0%)|score:1|rank:2'') = None"
  by code_simp

subsection \<open>Well-formed blocks\<close>




subsection \<open>A match without HSPs\<close>

text \<open>
  From a state with no active match and an empty dictionary (the initial state, or the
  state after an end marker), a block with one valid gene-cover line and no HSP line,
  closed by an end marker, yields one record with an empty dictionary;
  \<^verbatim>\<open>write_gff_line\<close> raises \<^verbatim>\<open>ZeroDivisionError\<close> on it, and so does the program
  after the header.
\<close>

lemma gene_cover_without_hsps:
  assumes "\<not> in_record s" and "genomic_match s = None" and "hsp_dict s = []"
    and "startswith start START_STR"
    and "\<forall>l\<in>set pre. passive_line l"
    and "is_gene_cover_line g" and "GENOMIC_MATCH_RE (rstrip g) = Some m"
    and "\<forall>l\<in>set post. passive_line l"
    and "is_end_line e"
  shows "run s (start # pre @ g # post @ e # rest) =
           yield_then [(m, [])] (run init_state rest) \<and>
         write_gff_line a m [] qn = Inl ZeroDivisionError \<and>
         main a (start # pre @ g # post @ e # rest) = ([GFF_HEADER], Some ZeroDivisionError)"
proof -
  have pre: "\<forall>l\<in>set pre. body_line l" and post: "\<forall>l\<in>set post. body_line l"
    using assms(5,8) by (simp_all add: body_line_def)
  have gm: "good_match (g, m, post)"
    using assms(6,7) post by (simp add: good_match_def list_all_iff)
  have col: "collect [] (pre @ post) = []"
    using assms(5,8) by (intro collect_passive) auto
  have r: "run s' (start # pre @ g # post @ e # rest) =
             yield_then [(m, [])] (run init_state rest)"
    if "\<not> in_record s'" "genomic_match s' = None" "hsp_dict s' = []" for s'
    using run_block [OF that(1,2) assms(4) pre gm _ assms(9), of "[]" rest] that(3) col
    by (simp add: match_lines_Cons match_lines_Nil del: run.simps)
  have w: "write_gff_line a m [] qn = Inl ZeroDivisionError" for qn
    by (simp add: write_gff_line_def)
  have "run init_state (start # pre @ g # post @ e # rest) =
           yield_then [(m, [])] (run init_state rest)"
    by (rule r) (simp_all add: init_state_def)
  then have "main a (start # pre @ g # post @ e # rest) = ([GFF_HEADER], Some ZeroDivisionError)"
    by (simp add: main_def parse_genblastA_def yield_then_def w case_prod_beta del: run.simps)
  then show ?thesis
    using r [OF assms(1,2,3)] w by simp
qed

text \<open>An instance from the initial state.\<close>

lemma gene_cover_without_hsps_initial:
  "parse_genblastA
     [''//*****************START'',
      ''//for query: QGENE //'',
      ''QGENE|CHR1:100..200|+|gene cover:100(95.0%)|score:50.5|rank:1'',
      ''//******************END''] =
   ([(\<lparr>grp_query_name = ''QGENE'', match_name = ''CHR1'', match_start = ''100'',
       match_end = ''200'', strand = ''+'', coverage_num = ''100'',
       coverage_perc = ''95.0'', score = ''50.5'', rank = ''1''\<rparr>, [])],
    Inr init_state) \<and>
   main default_args
     [''//*****************START'',
      ''//for query: QGENE //'',
      ''QGENE|CHR1:100..200|+|gene cover:100(95.0%)|score:50.5|rank:1'',
      ''//******************END''] = ([GFF_HEADER], Some ZeroDivisionError)"
proof -
  let ?m = "\<lparr>grp_query_name = ''QGENE'', match_name = ''CHR1'', match_start = ''100'',
       match_end = ''200'', strand = ''+'', coverage_num = ''100'',
       coverage_perc = ''95.0'', score = ''50.5'', rank = ''1''\<rparr>"
  let ?g = "''QGENE|CHR1:100..200|+|gene cover:100(95.0%)|score:50.5|rank:1''"
  have h1: "\<not> in_record init_state" and h2: "genomic_match init_state = None"
    and h3: "hsp_dict init_state = []"
    by (simp_all add: init_state_def)
  have h4: "startswith ''//*****************START'' START_STR" by code_simp
  have h5: "\<forall>l\<in>set [''//for query: QGENE //'']. passive_line l" by code_simp
  have h6: "is_gene_cover_line ?g" by code_simp
  have h7: "GENOMIC_MATCH_RE (rstrip ?g) = Some ?m" by code_simp
  have h8: "\<forall>l\<in>set []. passive_line l" by simp
  have h9: "is_end_line ''//******************END''" by code_simp
  from gene_cover_without_hsps [OF h1 h2 h3 h4 h5 h6 h7 h8 h9, of "[]" default_args "''QGENE''"]
  show ?thesis
    by (simp add: parse_genblastA_def yield_then_def del: run.simps(2))
qed

text \<open>
  C6. The claim: a block with a valid gene-cover line and no HSP line, closed by an end
  marker, yields one record with an empty mapping, and the emitter fails on it with a
  division error. An aborted block leaves its HSPs in \<^verbatim>\<open>hsp_dict\<close> (the abort
  branches do not reset it, as for C1), and the first match of the next block takes
  them. Below, the first block is aborted by a malformed HSP line after one good HSP
  line; the second block has a gene-cover line and no HSP line, and its record has that
  HSP: the emitter divides by one and writes a line.
\<close>

theorem zero_hsp_block_inherits_hsps:
  "parse_genblastA
     [''//*****************START'',
      ''HSP_ID[0]:(100-150);query:(1-50); pid: 98.0'',
      ''HSP_ID junk'',
      ''//******************END'',
      ''//*****************START'',
      ''QGENE|CHR1:100..200|+|gene cover:100(95.0%)|score:50.5|rank:1'',
      ''//******************END''] =
   ([(\<lparr>grp_query_name = ''QGENE'', match_name = ''CHR1'', match_start = ''100'',
       match_end = ''200'', strand = ''+'', coverage_num = ''100'',
       coverage_perc = ''95.0'', score = ''50.5'', rank = ''1''\<rparr>,
      [(0, \<lparr>hsp_match_start = 100, hsp_match_end = 150, query_start = 1,
            query_end = 50, perc_id = Fin 98\<rparr>)])],
    Inr init_state) \<and>
   main default_args
     [''//*****************START'',
      ''HSP_ID[0]:(100-150);query:(1-50); pid: 98.0'',
      ''HSP_ID junk'',
      ''//******************END'',
      ''//*****************START'',
      ''QGENE|CHR1:100..200|+|gene cover:100(95.0%)|score:50.5|rank:1'',
      ''//******************END''] =
   ([GFF_HEADER,
     ''CHR1'' @ TAB @ ''BLAST'' @ TAB @ ''match'' @ TAB @ ''100'' @ TAB @ ''200'' @ TAB @
     ''50.5'' @ TAB @ ''+'' @ TAB @ ''.'' @ TAB @ ''ID=QGENE_1'' @ NL], None)"
  by code_simp

subsection \<open>End of input inside a block\<close>

text \<open>
  C8. Inside a block, after a valid gene-cover line \<open>g\<close> and body lines up to the
  end of the input, the parser has yielded only the match that was active before
  \<open>g\<close>, if any; the match of \<open>g\<close> is still active in the final state, with its
  HSPs, and has not been yielded. More generally, a run of lines none of which is an end
  marker or a gene-cover line yields nothing, from any state.
\<close>

theorem unterminated_match_not_yielded:
  assumes "in_record s" and "is_gene_cover_line g"
    and "GENOMIC_MATCH_RE (rstrip g) = Some m"
    and "\<forall>l\<in>set tail. body_line l"
  shows "run s (g # tail) =
           (yield_active s,
            Inr (s\<lparr>hsp_dict := collect (if genomic_match s = None then hsp_dict s else []) tail,
                   genomic_match := Some m,
                   query_name := qname_after (query_name s) tail\<rparr>)) \<and>
         ((\<forall>l\<in>set ls. \<not> is_end_line l \<and> \<not> is_gene_cover_line l) \<longrightarrow>
            fst (run s0 ls) = [])"
proof -
  let ?s1 = "s\<lparr>hsp_dict := (if genomic_match s = None then hsp_dict s else []),
               genomic_match := GENOMIC_MATCH_RE (rstrip g),
               in_record := (GENOMIC_MATCH_RE (rstrip g) \<noteq> None)\<rparr>"
  let ?s2 = "?s1\<lparr>hsp_dict := collect (hsp_dict ?s1) tail,
                  query_name := qname_after (query_name ?s1) tail\<rparr>"
  have a: "step s g = Inr (?s1, yield_active s)"
    using assms(1,2) by (rule step_gene_cover)
  have b: "run ?s1 tail = ([], Inr ?s2)"
    using assms(3,4) by (intro run_body) simp_all
  have "run s (g # tail) = yield_then (yield_active s) ([], Inr ?s2)"
    by (simp only: run_Cons_ok [OF a] b)
  then have "run s (g # tail) =
           (yield_active s,
            Inr (s\<lparr>hsp_dict := collect (if genomic_match s = None then hsp_dict s else []) tail,
                   genomic_match := Some m,
                   query_name := qname_after (query_name s) tail\<rparr>))"
    using assms(1,3) by (simp add: yield_then_def del: run.simps)
  then show ?thesis
    using run_silent [of ls s0] by blast
qed

text \<open>
  An instance of C8: the input ends after the first HSP line of the match.
\<close>

theorem unterminated_match_not_yielded_witness:
  "parse_genblastA
     [''//*****************START'',
      ''QGENE|CHR1:100..200|+|gene cover:100(95.0%)|score:50.5|rank:1'',
      ''HSP_ID[0]:(100-150);query:(1-50); pid: 98.0''] =
   ([], Inr \<lparr>in_record = True,
             hsp_dict = [(0, \<lparr>hsp_match_start = 100, hsp_match_end = 150, query_start = 1,
                              query_end = 50, perc_id = Fin 98\<rparr>)],
             genomic_match =
               Some \<lparr>grp_query_name = ''QGENE'', match_name = ''CHR1'', match_start = ''100'',
                     match_end = ''200'', strand = ''+'', coverage_num = ''100'',
                     coverage_perc = ''95.0'', score = ''50.5'', rank = ''1''\<rparr>,
             query_name = []\<rparr>)"
proof -
  let ?m = "\<lparr>grp_query_name = ''QGENE'', match_name = ''CHR1'', match_start = ''100'',
       match_end = ''200'', strand = ''+'', coverage_num = ''100'',
       coverage_perc = ''95.0'', score = ''50.5'', rank = ''1''\<rparr>"
  let ?g = "''QGENE|CHR1:100..200|+|gene cover:100(95.0%)|score:50.5|rank:1''"
  let ?tail = "[''HSP_ID[0]:(100-150);query:(1-50); pid: 98.0'']"
  let ?s = "init_state\<lparr>in_record := True\<rparr>"
  have st: "step init_state ''//*****************START'' = Inr (?s, [])" by code_simp
  have h1: "in_record ?s" by simp
  have h2: "is_gene_cover_line ?g" by code_simp
  have h3: "GENOMIC_MATCH_RE (rstrip ?g) = Some ?m" by code_simp
  have h4: "\<forall>l\<in>set ?tail. body_line l" by code_simp
  have c: "collect [] ?tail =
     [(0, \<lparr>hsp_match_start = 100, hsp_match_end = 150, query_start = 1,
           query_end = 50, perc_id = Fin 98\<rparr>)]"
    by code_simp
  have q: "qname_after [] ?tail = []" by code_simp
  from unterminated_match_not_yielded [OF h1 h2 h3 h4]
  have "run ?s (?g # ?tail) =
           (yield_active ?s,
            Inr (?s\<lparr>hsp_dict := collect (if genomic_match ?s = None then hsp_dict ?s else []) ?tail,
                   genomic_match := Some ?m,
                   query_name := qname_after (query_name ?s) ?tail\<rparr>))"
    by (rule conjunct1)
  then have "run ?s (?g # ?tail) =
     ([], Inr \<lparr>in_record = True, hsp_dict = collect [] ?tail, genomic_match = Some ?m,
              query_name = qname_after [] ?tail\<rparr>)"
    by (simp add: init_state_def yield_active_def del: run.simps collect.simps qname_after.simps)
  then show ?thesis
    unfolding c q parse_genblastA_def
    by (simp only: run_Cons_ok [OF st] yield_then_Nil)
qed

subsection \<open>HSP lines before the first gene-cover line\<close>

text \<open>
  In a block entered with no active match and an empty dictionary, well-formed HSP lines
  before the first gene-cover line are read without error into the dictionary; the
  first record yielded in the block, at the next gene-cover line or end marker \<open>b\<close>,
  has the dictionary collected from the lines before and after its gene-cover line,
  which is the list of all their entries when the keys are distinct; and if the end
  marker comes with no gene-cover line, nothing is yielded and the dictionary is reset.
\<close>

lemma hsp_lines_before_first_gene_cover:
  assumes "\<not> in_record s" and "genomic_match s = None" and "hsp_dict s = []"
    and "startswith start START_STR"
    and "\<forall>l\<in>set pre. body_line l"
    and "good_match (g, m, seg)"
    and "is_end_line b \<or> is_gene_cover_line b"
    and "is_end_line e"
  shows "run s (start # pre) =
           ([], Inr (s\<lparr>in_record := True, hsp_dict := collect [] pre,
                       query_name := qname_after (query_name s) pre\<rparr>)) \<and>
         (\<exists>s'. run s (start # pre @ g # seg @ [b]) =
                 ([(m, collect [] (pre @ seg))], Inr s')) \<and>
         run s (start # pre @ [e]) = ([], Inr init_state) \<and>
         (distinct (hsp_ids (pre @ seg)) \<longrightarrow>
            collect [] (pre @ seg) = hsp_entries pre @ hsp_entries seg)"
proof -
  have g: "is_gene_cover_line g" "GENOMIC_MATCH_RE (rstrip g) = Some m"
    and seg: "\<forall>l\<in>set seg. body_line l"
    using assms(6) by (simp_all add: good_match_def list_all_iff)
  let ?s0 = "s\<lparr>in_record := True\<rparr>"
  let ?s1 = "?s0\<lparr>hsp_dict := collect (hsp_dict ?s0) pre,
                  query_name := qname_after (query_name ?s0) pre\<rparr>"
  let ?s2 = "?s1\<lparr>genomic_match := Some m\<rparr>"
  let ?s3 = "?s2\<lparr>hsp_dict := collect (hsp_dict ?s2) seg,
                  query_name := qname_after (query_name ?s2) seg\<rparr>"
  have a: "step s start = Inr (?s0, [])"
    using assms(1,4) by (simp add: step_outside)
  have b: "run ?s0 pre = ([], Inr ?s1)"
    using assms(5) by (intro run_body) simp_all
  have c: "step ?s1 g = Inr (?s2, [])"
    using g assms(2) by (simp add: step_gene_cover yield_active_def)
  have d: "run ?s2 seg = ([], Inr ?s3)"
    using seg by (intro run_body) simp_all
  obtain s' where e: "step ?s3 b = Inr (s', yield_active ?s3)"
    using step_boundary [of ?s3 b] assms(7) by auto
  have one: "run s (start # pre) = ([], Inr ?s1)"
    by (simp only: run_Cons_ok [OF a] b yield_then_Nil)
  have "run s (start # pre @ g # seg @ [b]) =
          yield_then [] (yield_then [] (yield_then [] (yield_then []
            (yield_then (yield_active ?s3) (run s' [])))))"
    by (simp only: run_Cons_ok [OF a] run_append_ok [OF b] run_Cons_ok [OF c]
        run_append_ok [OF d] run_Cons_ok [OF e])
  then have two: "run s (start # pre @ g # seg @ [b]) =
      ([(m, collect [] (pre @ seg))], Inr s')"
    using assms(3)
    by (simp add: yield_then_Nil yield_active_def yield_then_def collect_append del: run.simps)
       simp
  have three: "run s (start # pre @ [e]) = ([], Inr init_state)"
    using run_empty_block [OF assms(1,2,4,5,8), of "[]"] by simp
  have four: "collect [] (pre @ seg) = hsp_entries pre @ hsp_entries seg"
    if "distinct (hsp_ids (pre @ seg))"
    using collect_distinct [of "[]" "pre @ seg"] that by (simp add: hsp_entries_append)
  show ?thesis
    using one two three four assms(3) by (simp add: yield_then_Nil del: run.simps)
qed

text \<open>
  An instance: the entry of key 7, read before the gene-cover line, is in the record;
  with an end marker and no gene-cover line it is dropped.
\<close>

lemma hsp_lines_before_first_gene_cover_initial:
  "fst (parse_genblastA
     [''//*****************START'',
      ''HSP_ID[7]:(100-150);query:(1-50); pid: 98.0'',
      ''QGENE|CHR1:100..200|+|gene cover:100(95.0%)|score:50.5|rank:1'',
      ''HSP_ID[1]:(150-200);query:(51-100); pid: 96.0'',
      ''//******************END'']) =
   [(\<lparr>grp_query_name = ''QGENE'', match_name = ''CHR1'', match_start = ''100'',
       match_end = ''200'', strand = ''+'', coverage_num = ''100'',
       coverage_perc = ''95.0'', score = ''50.5'', rank = ''1''\<rparr>,
      [(7, \<lparr>hsp_match_start = 100, hsp_match_end = 150, query_start = 1,
            query_end = 50, perc_id = Fin 98\<rparr>),
       (1, \<lparr>hsp_match_start = 150, hsp_match_end = 200, query_start = 51,
            query_end = 100, perc_id = Fin 96\<rparr>)])] \<and>
   parse_genblastA
     [''//*****************START'',
      ''HSP_ID[7]:(100-150);query:(1-50); pid: 98.0'',
      ''//******************END''] = ([], Inr init_state)"
proof -
  let ?m = "\<lparr>grp_query_name = ''QGENE'', match_name = ''CHR1'', match_start = ''100'',
       match_end = ''200'', strand = ''+'', coverage_num = ''100'',
       coverage_perc = ''95.0'', score = ''50.5'', rank = ''1''\<rparr>"
  let ?g = "''QGENE|CHR1:100..200|+|gene cover:100(95.0%)|score:50.5|rank:1''"
  let ?pre = "[''HSP_ID[7]:(100-150);query:(1-50); pid: 98.0'']"
  let ?seg = "[''HSP_ID[1]:(150-200);query:(51-100); pid: 96.0'']"
  let ?e = "''//******************END''"
  have h1: "\<not> in_record init_state" and h2: "genomic_match init_state = None"
    and h3: "hsp_dict init_state = []"
    by (simp_all add: init_state_def)
  have h4: "startswith ''//*****************START'' START_STR" by code_simp
  have h5: "\<forall>l\<in>set ?pre. body_line l" by code_simp
  have h6: "good_match (?g, ?m, ?seg)" by code_simp
  have h7: "is_end_line ?e" by code_simp
  have h8: "is_end_line ?e \<or> is_gene_cover_line ?e" using h7 by simp
  have c: "collect [] (?pre @ ?seg) =
      [(7, \<lparr>hsp_match_start = 100, hsp_match_end = 150, query_start = 1,
            query_end = 50, perc_id = Fin 98\<rparr>),
       (1, \<lparr>hsp_match_start = 150, hsp_match_end = 200, query_start = 51,
            query_end = 100, perc_id = Fin 96\<rparr>)]"
    by code_simp
  from hsp_lines_before_first_gene_cover [OF h1 h2 h3 h4 h5 h6 h8 h7]
  have a: "\<exists>s'. run init_state (''//*****************START'' # ?pre @ ?g # ?seg @ [?e]) =
                 ([(?m, collect [] (?pre @ ?seg))], Inr s')"
    and b: "run init_state (''//*****************START'' # ?pre @ [?e]) = ([], Inr init_state)"
    by blast+
  from a obtain s' where
    "run init_state (''//*****************START'' # ?pre @ ?g # ?seg @ [?e]) =
       ([(?m, collect [] (?pre @ ?seg))], Inr s')" ..
  then have "fst (run init_state (''//*****************START'' # ?pre @ ?g # ?seg @ [?e])) =
       [(?m, collect [] (?pre @ ?seg))]"
    by (simp del: run.simps)
  then show ?thesis
    using b unfolding c parse_genblastA_def by (simp del: run.simps)
qed

text \<open>
  C10. The claim: HSP lines read in a block before any gene-cover line stay in the
  working dictionary and become part of the first record yielded in that block, or are
  dropped if no match follows. They are dropped at the end marker only. When the block
  is aborted instead, by a malformed line, \<^verbatim>\<open>hsp_dict\<close> keeps them (the abort
  branches do not reset it, as for C1) and they go into a record of a later block.
  Below, the first block has one HSP line and is aborted by a query-name line of three
  fields; no match follows in it, and the entry of key 7 is in the record of the second
  block.
\<close>

theorem hsp_of_aborted_block_kept:
  "parse_genblastA
     [''//*****************START'',
      ''HSP_ID[7]:(100-150);query:(1-50); pid: 98.0'',
      ''//for query: QGENE'',
      ''//******************END'',
      ''//*****************START'',
      ''QGENE|CHR1:100..200|+|gene cover:100(95.0%)|score:50.5|rank:1'',
      ''//******************END''] =
   ([(\<lparr>grp_query_name = ''QGENE'', match_name = ''CHR1'', match_start = ''100'',
       match_end = ''200'', strand = ''+'', coverage_num = ''100'',
       coverage_perc = ''95.0'', score = ''50.5'', rank = ''1''\<rparr>,
      [(7, \<lparr>hsp_match_start = 100, hsp_match_end = 150, query_start = 1,
            query_end = 50, perc_id = Fin 98\<rparr>)])],
    Inr init_state)"
  by code_simp

subsection \<open>What the patterns capture\<close>





lemma GENOMIC_MATCH_RE_query_name:
  "GENOMIC_MATCH_RE t = Some gm \<Longrightarrow> grp_query_name gm = takeWhile (\<lambda>c. c \<noteq> CHR ''|'') t"
  unfolding GENOMIC_MATCH_RE_def star_def
  by (auto simp: bind_eq_Some_conv)



subsection \<open>The emitter\<close>


lemma map_perc_id: "map (\<lambda>(i, h). perc_id h) hsps = map (\<lambda>kh. perc_id (snd kh)) hsps"
  by (induction hsps) auto

lemma DBL_OVERFLOW_pow: "DBL_OVERFLOW = 2 ^ 1024"
  by (simp add: DBL_OVERFLOW_def)

lemma write_gff_line_nonempty:
  assumes "hsps \<noteq> []"
  shows "write_gff_line a gm hsps qn =
     (case mean_perc_id hsps of
        None \<Rightarrow> Inl OverflowError
      | Some avg \<Rightarrow>
          (case py_float (coverage_perc gm) of
             None \<Rightarrow> Inl ValueError
           | Some c \<Rightarrow>
               if fl_ge avg (min_perc_identity a) \<and> fl_ge c (min_perc_coverage a) \<and>
                  \<bar>py_int (match_end gm) - py_int (match_start gm)\<bar> \<ge> min_match_length a
               then Inr [gff_line gm qn] else Inr []))"
  using assms
  by (simp add: write_gff_line_def mean_perc_id_def map_perc_id Let_def
      split: option.splits double.splits)




text \<open>
  The rounding of the model on two inputs near the default threshold of 80: the text
  \<^verbatim>\<open>79.99999999999999999\<close> is the double 80, and the percent identities 92.6, 75.3
  and 72.1 have the computed mean 79.99999999999999 (the double below 80 by
  \<open>pow2 (- 46)\<close>), so that no line is written for them.
\<close>

lemma rounding_near_default_threshold:
  "py_float ''79.99999999999999999'' = Some (Fin 80) \<and>
   py_float ''92.6'' = Some (Fin (3258072855425843 / 35184372088832)) \<and>
   py_float ''75.3'' = Some (Fin (5298766436578099 / 70368744177664)) \<and>
   py_float ''72.1'' = Some (Fin (2536793227604787 / 35184372088832)) \<and>
   fl_div_pos (py_sum [Fin (3258072855425843 / 35184372088832),
                       Fin (5298766436578099 / 70368744177664),
                       Fin (2536793227604787 / 35184372088832)]) 3 =
     Fin (80 - 1 / 2 ^ 46) \<and>
   feature_lines (main default_args
     [''//*****************START'',
      ''QGENE|CHR1:100..200|+|gene cover:100(95.0%)|score:50.5|rank:1'',
      ''HSP_ID[0]:(100-150);query:(1-50); pid: 92.6'',
      ''HSP_ID[1]:(150-200);query:(51-100); pid: 75.3'',
      ''HSP_ID[2]:(150-200);query:(51-100); pid: 72.1'',
      ''//******************END'']) = []"
  by code_simp

subsection \<open>Raising a threshold\<close>

lemma fl_ge_trans: "fl_ge x y \<Longrightarrow> fl_ge y z \<Longrightarrow> fl_ge x z"
  by (cases x; cases y; cases z) auto

lemma fl_ge_raised: "raised t t' \<Longrightarrow> fl_ge x t' \<Longrightarrow> fl_ge x t"
  unfolding raised_def using fl_ge_trans by blast

lemma write_gff_line_mono:
  assumes "raised (min_perc_identity a) (min_perc_identity a')"
    and "raised (min_perc_coverage a) (min_perc_coverage a')"
    and "min_match_length a \<le> min_match_length a'"
  shows "(\<exists>e. write_gff_line a' gm hsps qn = Inl e \<and> write_gff_line a gm hsps qn = Inl e) \<or>
         (\<exists>out' out. write_gff_line a' gm hsps qn = Inr out' \<and>
            write_gff_line a gm hsps qn = Inr out \<and> length out' \<le> length out)"
proof (cases "hsps = []")
  case True
  then show ?thesis by (simp add: write_gff_line_def)
next
  case False
  show ?thesis
    using assms fl_ge_raised
    by (auto simp: write_gff_line_nonempty [OF False] split: option.splits)
qed

lemma emit_all_mono:
  assumes "raised (min_perc_identity a) (min_perc_identity a')"
    and "raised (min_perc_coverage a) (min_perc_coverage a')"
    and "min_match_length a \<le> min_match_length a'"
  shows "length (fst (emit_all a' rs)) \<le> length (fst (emit_all a rs)) \<and>
         snd (emit_all a' rs) = snd (emit_all a rs)"
proof (induction rs)
  case Nil
  then show ?case by simp
next
  case (Cons r rs)
  obtain gm hsps where r: "r = (gm, hsps)" by (cases r)
  from write_gff_line_mono [OF assms, of gm hsps "grp_query_name gm"] show ?case
  proof (elim disjE exE conjE)
    fix e
    assume "write_gff_line a' gm hsps (grp_query_name gm) = Inl e"
      "write_gff_line a gm hsps (grp_query_name gm) = Inl e"
    then show ?thesis by (simp add: r)
  next
    fix out' out
    assume "write_gff_line a' gm hsps (grp_query_name gm) = Inr out'"
      "write_gff_line a gm hsps (grp_query_name gm) = Inr out" "length out' \<le> length out"
    then show ?thesis
      using Cons.IH by (simp add: r case_prod_beta)
  qed
qed

lemma main_emit_all:
  "main a ls =
     (GFF_HEADER # fst (emit_all a (fst (parse_genblastA ls))),
      case snd (emit_all a (fst (parse_genblastA ls))) of
        Some e \<Rightarrow> Some e
      | None \<Rightarrow> (case snd (parse_genblastA ls) of Inl e \<Rightarrow> Some e | Inr s \<Rightarrow> None))"
  by (simp add: main_def case_prod_beta split: option.splits prod.splits)

text \<open>
  C7. When each threshold is what it was or above (\<^verbatim>\<open>>=\<close> on doubles for the two
  percentages, on integers for the length), the program writes at most as many feature
  lines on the same input, and ends in the same way. Raising one threshold and keeping
  the other two is the case where two of the three are what they were.
\<close>

theorem raising_thresholds_never_adds_lines:
  assumes "raised (min_perc_identity a) (min_perc_identity a')"
    and "raised (min_perc_coverage a) (min_perc_coverage a')"
    and "min_match_length a \<le> min_match_length a'"
  shows "length (feature_lines (main a' ls)) \<le> length (feature_lines (main a ls)) \<and>
         snd (main a' ls) = snd (main a ls)"
  using emit_all_mono [OF assms, of "fst (parse_genblastA ls)"]
  by (simp add: main_emit_all feature_lines_def)

text \<open>
  An instance of C7: raising the coverage threshold from 80 to 96 on the example of
  the specification leaves no feature line.
\<close>

theorem raising_thresholds_never_adds_lines_witness:
  "length (feature_lines (main (default_args\<lparr>min_perc_coverage := Fin 96\<rparr>)
     [''//*****************START'',
      ''//for query: QGENE //'',
      ''QGENE|CHR1:100..200|+|gene cover:100(95.0%)|score:50.5|rank:1'',
      ''HSP_ID[0]:(100-150);query:(1-50); pid: 98.0'',
      ''HSP_ID[1]:(150-200);query:(51-100); pid: 96.0'',
      ''//******************END''])) \<le>
   length (feature_lines (main default_args
     [''//*****************START'',
      ''//for query: QGENE //'',
      ''QGENE|CHR1:100..200|+|gene cover:100(95.0%)|score:50.5|rank:1'',
      ''HSP_ID[0]:(100-150);query:(1-50); pid: 98.0'',
      ''HSP_ID[1]:(150-200);query:(51-100); pid: 96.0'',
      ''//******************END''])) \<and>
   feature_lines (main (default_args\<lparr>min_perc_coverage := Fin 96\<rparr>)
     [''//*****************START'',
      ''//for query: QGENE //'',
      ''QGENE|CHR1:100..200|+|gene cover:100(95.0%)|score:50.5|rank:1'',
      ''HSP_ID[0]:(100-150);query:(1-50); pid: 98.0'',
      ''HSP_ID[1]:(150-200);query:(51-100); pid: 96.0'',
      ''//******************END'']) = []"
proof -
  have h1: "raised (min_perc_identity default_args)
      (min_perc_identity (default_args\<lparr>min_perc_coverage := Fin 96\<rparr>))"
    and h2: "raised (min_perc_coverage default_args)
      (min_perc_coverage (default_args\<lparr>min_perc_coverage := Fin 96\<rparr>))"
    and h3: "min_match_length default_args \<le>
      min_match_length (default_args\<lparr>min_perc_coverage := Fin 96\<rparr>)"
    by (simp_all add: default_args_def raised_def)
  have e: "feature_lines (main (default_args\<lparr>min_perc_coverage := Fin 96\<rparr>)
     [''//*****************START'',
      ''//for query: QGENE //'',
      ''QGENE|CHR1:100..200|+|gene cover:100(95.0%)|score:50.5|rank:1'',
      ''HSP_ID[0]:(100-150);query:(1-50); pid: 98.0'',
      ''HSP_ID[1]:(150-200);query:(51-100); pid: 96.0'',
      ''//******************END'']) = []"
    by code_simp
  from raising_thresholds_never_adds_lines [OF h1 h2 h3] e show ?thesis
    by blast
qed

subsection \<open>The query name of a feature line\<close>

lemma write_gff_line_out:
  "write_gff_line a gm hsps qn = Inr out \<Longrightarrow> set out \<subseteq> {gff_line gm qn}"
  by (auto simp: write_gff_line_def Let_def split: if_splits option.splits double.splits)

lemma emit_all_lines:
  "set (fst (emit_all a rs)) \<subseteq> (\<lambda>(gm, hsps). gff_line gm (grp_query_name gm)) ` set rs"
proof (induction rs)
  case Nil
  then show ?case by simp
next
  case (Cons r rs)
  obtain gm hsps where r: "r = (gm, hsps)" by (cases r)
  show ?case
  proof (cases "write_gff_line a gm hsps (grp_query_name gm)")
    case (Inl e)
    then show ?thesis by (simp add: r)
  next
    case (Inr out)
    then have "set out \<subseteq> {gff_line gm (grp_query_name gm)}"
      by (rule write_gff_line_out)
    then show ?thesis
      using Cons.IH Inr by (auto simp: r case_prod_beta)
  qed
qed

text \<open>
  C3, as amended. The claim says that a record carries the query name of the last
  query-name line and that the ID of a feature line uses it. The generator yields the
  match and the dictionary only, and the driver passes the group \<^verbatim>\<open>query_name\<close> of
  the gene-cover line to \<^verbatim>\<open>write_gff_line\<close> (line 113). What holds: the records
  yielded do not depend on the tracked query name; every feature line written is
  \<open>gff_line gm (grp_query_name gm)\<close> for a yielded match \<open>gm\<close>; and that group
  is the text of the gene-cover line before its first vertical bar.
\<close>

theorem id_from_gene_cover_line:
  "fst (run (s\<lparr>query_name := q\<rparr>) ls) = fst (run s ls) \<and>
   set (feature_lines (main a ls)) \<subseteq>
     (\<lambda>(gm, hsps). gff_line gm (grp_query_name gm)) ` set (fst (parse_genblastA ls)) \<and>
   (GENOMIC_MATCH_RE t = Some gm \<longrightarrow>
      grp_query_name gm = takeWhile (\<lambda>c. c \<noteq> CHR ''|'') t)"
proof (intro conjI)
  show "fst (run (s\<lparr>query_name := q\<rparr>) ls) = fst (run s ls)"
    by (rule run_query_name) simp_all
  show "set (feature_lines (main a ls)) \<subseteq>
     (\<lambda>(gm, hsps). gff_line gm (grp_query_name gm)) ` set (fst (parse_genblastA ls))"
    using emit_all_lines [of a "fst (parse_genblastA ls)"]
    by (simp add: main_emit_all feature_lines_def)
  show "GENOMIC_MATCH_RE t = Some gm \<longrightarrow>
      grp_query_name gm = takeWhile (\<lambda>c. c \<noteq> CHR ''|'') t"
    using GENOMIC_MATCH_RE_query_name by blast
qed

text \<open>
  An instance of C3 as amended.
\<close>

theorem id_from_gene_cover_line_witness:
  "fst (run (init_state\<lparr>query_name := ''ELSE''\<rparr>)
     [''//*****************START'',
      ''OTHER|CHR1:100..200|+|gene cover:100(95.0%)|score:50.5|rank:1'',
      ''//******************END'']) =
   fst (run init_state
     [''//*****************START'',
      ''OTHER|CHR1:100..200|+|gene cover:100(95.0%)|score:50.5|rank:1'',
      ''//******************END'']) \<and>
   grp_query_name
     \<lparr>grp_query_name = ''OTHER'', match_name = ''CHR1'', match_start = ''100'',
      match_end = ''200'', strand = ''+'', coverage_num = ''100'',
      coverage_perc = ''95.0'', score = ''50.5'', rank = ''1''\<rparr> =
   takeWhile (\<lambda>c. c \<noteq> CHR ''|'')
     ''OTHER|CHR1:100..200|+|gene cover:100(95.0%)|score:50.5|rank:1''"
proof -
  have h: "GENOMIC_MATCH_RE ''OTHER|CHR1:100..200|+|gene cover:100(95.0%)|score:50.5|rank:1'' =
    Some \<lparr>grp_query_name = ''OTHER'', match_name = ''CHR1'', match_start = ''100'',
      match_end = ''200'', strand = ''+'', coverage_num = ''100'',
      coverage_perc = ''95.0'', score = ''50.5'', rank = ''1''\<rparr>"
    by code_simp
  from id_from_gene_cover_line [where s = init_state and q = "''ELSE''"
      and t = "''OTHER|CHR1:100..200|+|gene cover:100(95.0%)|score:50.5|rank:1''"
      and gm = "\<lparr>grp_query_name = ''OTHER'', match_name = ''CHR1'', match_start = ''100'',
      match_end = ''200'', strand = ''+'', coverage_num = ''100'',
      coverage_perc = ''95.0'', score = ''50.5'', rank = ''1''\<rparr>"] h
  show ?thesis by blast
qed

text \<open>
  The counterexample to C3 as stated: the query-name line names \<^verbatim>\<open>QGENE\<close>, the
  gene-cover line begins with \<^verbatim>\<open>OTHER\<close>, and the ID written is \<^verbatim>\<open>OTHER_1\<close>.
\<close>

theorem id_ignores_query_name_line:
  "main default_args
     [''//*****************START'',
      ''//for query: QGENE //'',
      ''OTHER|CHR1:100..200|+|gene cover:100(95.0%)|score:50.5|rank:1'',
      ''HSP_ID[0]:(100-150);query:(1-50); pid: 98.0'',
      ''HSP_ID[1]:(150-200);query:(51-100); pid: 96.0'',
      ''//******************END''] =
   ([GFF_HEADER,
     ''CHR1'' @ TAB @ ''BLAST'' @ TAB @ ''match'' @ TAB @ ''100'' @ TAB @ ''200'' @ TAB @
     ''50.5'' @ TAB @ ''+'' @ TAB @ ''.'' @ TAB @ ''ID=OTHER_1'' @ NL], None) \<and>
   split_ws ''//for query: QGENE //'' ! 2 = ''QGENE'' \<and>
   good_query_line ''//for query: QGENE //''"
  by code_simp

end
